theory Spec2Isabelle
  imports Main
begin

unbundle bit_operations_syntax

section \<open>Errors and Python list indexing\<close>

text \<open>
  Every exception the modelled code can raise is a value of \<open>error\<close>; a call that may
  raise returns \<open>error + 'a\<close>, with \<open>Inl\<close> for the exception.
\<close>

datatype error = IndexError | KeyError | TypeError | InvalidSquareError

text \<open>
  Python's \<open>xs[i]\<close> on a list: a negative index counts from the end, and an index
  outside the list raises IndexError.
\<close>

definition py_index :: "'a list \<Rightarrow> int \<Rightarrow> error + 'a" where
  "py_index xs i =
     (if 0 \<le> i \<and> i < int (length xs) then Inr (xs ! nat i)
      else if i < 0 \<and> - int (length xs) \<le> i then Inr (xs ! nat (int (length xs) + i))
      else Inl IndexError)"

text \<open>Python's \<open>d[k]\<close> on a dict: a missing key raises KeyError.\<close>

definition py_getitem :: "('k \<rightharpoonup> 'v) \<Rightarrow> 'k \<Rightarrow> error + 'v" where
  "py_getitem d k = (case d k of None \<Rightarrow> Inl KeyError | Some v \<Rightarrow> Inr v)"

section \<open>The board, as the chess library exposes it\<close>

text \<open>
  The rules provider is the python-chess library. A square is an integer, \<open>chess.SQUARES\<close>
  is \<open>list(range(64))\<close>, \<open>chess.square_rank(sq)\<close> is \<open>sq >> 3\<close> and
  \<open>chess.square_file(sq)\<close> is \<open>sq & 7\<close>. A piece is a kind with a colour, and its symbol
  is one letter, upper case for White. Of a board only \<open>piece_at\<close> is used here: a board
  is the function from a square to the piece on it, if any.
\<close>

datatype PieceType = PAWN | KNIGHT | BISHOP | ROOK | QUEEN | KING

datatype Color = WHITE | BLACK

datatype Piece = Piece (piece_type: PieceType) (color: Color)

type_synonym Square = int

type_synonym Board = "Square \<Rightarrow> Piece option"

definition SQUARES :: "Square list" where
  "SQUARES = map int [0..<64]"

definition square_rank :: "Square \<Rightarrow> int" where
  "square_rank square = drop_bit 3 square"

definition square_file :: "Square \<Rightarrow> int" where
  "square_file square = square AND 7"

fun piece_symbol :: "PieceType \<Rightarrow> char" where
  "piece_symbol PAWN = CHR ''p''"
| "piece_symbol KNIGHT = CHR ''n''"
| "piece_symbol BISHOP = CHR ''b''"
| "piece_symbol ROOK = CHR ''r''"
| "piece_symbol QUEEN = CHR ''q''"
| "piece_symbol KING = CHR ''k''"

definition upper :: "char \<Rightarrow> char" where
  "upper c = (let n = (of_char c :: nat) in if 97 \<le> n \<and> n \<le> 122 then char_of (n - 32) else c)"

definition lower :: "char \<Rightarrow> char" where
  "lower c = (let n = (of_char c :: nat) in if 65 \<le> n \<and> n \<le> 90 then char_of (n + 32) else c)"

definition symbol :: "Piece \<Rightarrow> string" where
  "symbol p = (if color p = WHITE then [upper (piece_symbol (piece_type p))]
               else [piece_symbol (piece_type p)])"


section \<open>Square and piece resolution (utils)\<close>

text \<open>
  Modelled from the spec: \<open>get_square_at_position\<close> (the spec's \<open>resolve_square\<close>) of the
  module \<open>utils\<close>, of which only the tests are at hand. It accepts a two-character
  algebraic string, case-insensitively, or an already canonical square index, and returns
  the canonical index; it fails with InvalidSquareError for any string that does not match
  \<open>[a-h][1-8]\<close> and for any index out of range. The canonical index of file \<open>f\<close> and rank
  \<open>r\<close> is \<open>8 * r + f\<close>, the numbering of \<open>chess.SQUARES\<close>.
\<close>

datatype position = Str string | Idx int

definition file_of_char :: "char \<Rightarrow> int option" where
  "file_of_char c = (let n = (of_char (lower c) :: nat)
                     in if 97 \<le> n \<and> n \<le> 104 then Some (int n - 97) else None)"

definition rank_of_char :: "char \<Rightarrow> int option" where
  "rank_of_char c = (let n = (of_char c :: nat)
                     in if 49 \<le> n \<and> n \<le> 56 then Some (int n - 49) else None)"

fun get_square_at_position :: "position \<Rightarrow> error + Square" where
  "get_square_at_position (Idx i) =
     (if 0 \<le> i \<and> i < 64 then Inr i else Inl InvalidSquareError)"
| "get_square_at_position (Str [f, r]) =
     (case file_of_char f of
        None \<Rightarrow> Inl InvalidSquareError
      | Some fi \<Rightarrow>
          (case rank_of_char r of
             None \<Rightarrow> Inl InvalidSquareError
           | Some ri \<Rightarrow> Inr (8 * ri + fi)))"
| "get_square_at_position (Str _) = Inl InvalidSquareError"

text \<open>
  Modelled from the spec: \<open>get_piece_at\<close> (the spec's \<open>piece_at\<close>) of the module \<open>utils\<close>,
  missing as well. It resolves the square, and returns the one-character symbol of the
  piece on it, or an "empty" sentinel when the square is unoccupied; the tests only ask
  the sentinel to be falsy, and the empty string is the falsy value of the result type.
\<close>

definition get_piece_at :: "Board \<Rightarrow> position \<Rightarrow> error + string" where
  "get_piece_at board pos =
     (case get_square_at_position pos of
        Inl e \<Rightarrow> Inl e
      | Inr square \<Rightarrow> (case board square of None \<Rightarrow> Inr [] | Some p \<Rightarrow> Inr (symbol p)))"

section \<open>The Zobrist hash (transpositions.py)\<close>

text \<open>
  \<open>PIECE_INDEXING\<close> of \<open>constants.misc\<close> is a dict from piece symbols to indices; the
  module is not at hand, so the dict is a parameter of the model. The key array is a list
  of lists of lists of Python integers, which are unbounded: \<open>int\<close>, with \<open>XOR\<close> on the
  two's complement representation, as Python's \<open>^\<close>.

  The loop of \<open>zobrist_hash_function\<close> over \<open>chess.SQUARES\<close> is the recursion
  \<open>zobrist_loop\<close> over the squares left, with the running \<open>_hash\<close> as accumulator.
\<close>

type_synonym HashTable = "int list list list"

type_synonym PieceIndexing = "string \<rightharpoonup> int"

fun zobrist_loop ::
  "PieceIndexing \<Rightarrow> Board \<Rightarrow> HashTable \<Rightarrow> Square list \<Rightarrow> int \<Rightarrow> error + int" where
  "zobrist_loop PIECE_INDEXING board hash_table [] hash = Inr hash"
| "zobrist_loop PIECE_INDEXING board hash_table (square # squares) hash =
     (case get_piece_at board (Idx square) of
        Inl e \<Rightarrow> Inl e
      | Inr piece \<Rightarrow>
          if piece \<noteq> [] then
            (case py_getitem PIECE_INDEXING piece of
               Inl e \<Rightarrow> Inl e
             | Inr piece_idx \<Rightarrow>
                 (case py_index hash_table (square_rank square) of
                    Inl e \<Rightarrow> Inl e
                  | Inr plane \<Rightarrow>
                      (case py_index plane (square_file square) of
                         Inl e \<Rightarrow> Inl e
                       | Inr row \<Rightarrow>
                           (case py_index row piece_idx of
                              Inl e \<Rightarrow> Inl e
                            | Inr key \<Rightarrow>
                                zobrist_loop PIECE_INDEXING board hash_table squares
                                  (hash XOR key)))))
          else zobrist_loop PIECE_INDEXING board hash_table squares hash)"

definition zobrist_hash_function :: "PieceIndexing \<Rightarrow> Board \<Rightarrow> HashTable \<Rightarrow> error + int" where
  "zobrist_hash_function PIECE_INDEXING board hash_table =
     zobrist_loop PIECE_INDEXING board hash_table SQUARES 0"

section \<open>The transposition table (transpositions.py)\<close>

text \<open>
  An instance of \<open>TranspositionTable\<close> is a record of its four attributes. The hash
  function and the evaluation function are callables, which may raise; the scores are of
  any type \<open>'s\<close> (the evaluators return Python numbers); \<open>stored_values\<close> is a dict.
  The attribute \<open>_hash_table\<close> is the field \<open>hash_table\<close>, which is also the name of its
  property.
\<close>

record 's TranspositionTable =
  hash_function :: "Board \<Rightarrow> HashTable \<Rightarrow> error + int"
  hash_table :: HashTable
  evaluation_function :: "Board \<Rightarrow> error + 's"
  stored_values :: "int \<rightharpoonup> 's"

text \<open>
  \<open>random.randint(a, b)\<close> of the Python library returns an integer \<open>N\<close> with
  \<open>a \<le> N \<le> b\<close> (for \<open>a \<le> b\<close>) and advances the generator. The generator is modelled as a sequence of
  raw draws with a read position; which distribution the draws follow is outside the model.
\<close>

type_synonym Random = "(nat \<Rightarrow> nat) \<times> nat"

definition randint :: "int \<Rightarrow> int \<Rightarrow> Random \<Rightarrow> int \<times> Random" where
  "randint a b g = (a + int (fst g (snd g) mod nat (b - a + 1)), (fst g, Suc (snd g)))"

text \<open>
  A list comprehension \<open>[e for i in range(n)]\<close> whose element \<open>e\<close> draws from the
  generator: the elements are computed in order, each from the state the previous left.
\<close>

fun comprehension :: "nat \<Rightarrow> (Random \<Rightarrow> 'a \<times> Random) \<Rightarrow> Random \<Rightarrow> 'a list \<times> Random" where
  "comprehension 0 e g = ([], g)"
| "comprehension (Suc n) e g =
     (case e g of (x, g') \<Rightarrow> (case comprehension n e g' of (xs, g'') \<Rightarrow> (x # xs, g'')))"

text \<open>
  The constructor call \<open>TranspositionTable(hash_function[, evaluation_function])\<close>.
  \<open>__init__\<close> declares one parameter besides \<open>self\<close>, so a call that passes a second
  argument raises TypeError before the body runs. \<open>StandardEvaluation\<close> is imported from
  the module \<open>analysis\<close>, which is not at hand: it is a parameter of the model.
\<close>

definition TranspositionTable_init ::
  "(Board \<Rightarrow> error + 's) \<Rightarrow> (Board \<Rightarrow> HashTable \<Rightarrow> error + int) \<Rightarrow>
   (Board \<Rightarrow> error + 's) option \<Rightarrow> Random \<Rightarrow> error + ('s TranspositionTable \<times> Random)" where
  "TranspositionTable_init StandardEvaluation hash_function' evaluation_function_arg g =
     (case evaluation_function_arg of
        Some _ \<Rightarrow> Inl TypeError
      | None \<Rightarrow>
          (case comprehension 8 (comprehension 8 (comprehension 12 (randint 1 (2 ^ 64 - 1)))) g of
             (keys, g') \<Rightarrow>
               Inr (\<lparr>hash_function = hash_function',
                     hash_table = keys,
                     evaluation_function = StandardEvaluation,
                     stored_values = Map.empty\<rparr>, g')))"

definition hash_table_setter :: "'s TranspositionTable \<Rightarrow> HashTable \<Rightarrow> 's TranspositionTable" where
  "hash_table_setter self new_hash_table = self\<lparr>hash_table := new_hash_table\<rparr>"

definition contains :: "'s TranspositionTable \<Rightarrow> int \<Rightarrow> bool" where
  "contains self hash_str = (stored_values self hash_str \<noteq> None)"

text \<open>
  \<open>hash_current_board\<close> mutates \<open>self.stored_values\<close>; the model returns the table after
  the call, or the exception that the hash function or the evaluator raised, in which
  case nothing was stored.
\<close>

definition hash_current_board :: "'s TranspositionTable \<Rightarrow> Board \<Rightarrow> error + 's TranspositionTable" where
  "hash_current_board self board =
     (case hash_function self board (hash_table self) of
        Inl e \<Rightarrow> Inl e
      | Inr hash_ \<Rightarrow>
          (case evaluation_function self board of
             Inl e \<Rightarrow> Inl e
           | Inr evaluation \<Rightarrow>
               Inr (self\<lparr>stored_values := (stored_values self)(hash_ \<mapsto> evaluation)\<rparr>)))"

section \<open>Material evaluation (analysis)\<close>

text \<open>
  Modelled from the spec: \<open>StandardEvaluation.evaluate\<close> of the module \<open>analysis\<close>, of which
  only the tests are at hand. The spec's Material Evaluation "sums fixed per-piece-kind
  values for every occupied square, sign per color", positive for White. The table of
  values is an argument of the model, so that the evaluation can be stated for any table.
\<close>

definition signed_value :: "(PieceType \<Rightarrow> int) \<Rightarrow> Piece \<Rightarrow> int" where
  "signed_value piece_values p =
     (if color p = WHITE then piece_values (piece_type p) else - piece_values (piece_type p))"

definition StandardEvaluation_evaluate :: "(PieceType \<Rightarrow> int) \<Rightarrow> Board \<Rightarrow> int" where
  "StandardEvaluation_evaluate piece_values board =
     sum_list (map (\<lambda>sq. case board sq of None \<Rightarrow> 0 | Some p \<Rightarrow> signed_value piece_values p)
                   SQUARES)"

text \<open>
  The starting position of the chess library: the back ranks on ranks 1 and 8, the pawns
  on ranks 2 and 7. The squares the tests name: \<open>chess.D1 = 3\<close>, \<open>chess.E1 = 4\<close>,
  \<open>chess.A2 = 8\<close>, \<open>chess.C8 = 58\<close>.
\<close>

definition back_rank :: "PieceType list" where
  "back_rank = [ROOK, KNIGHT, BISHOP, QUEEN, KING, BISHOP, KNIGHT, ROOK]"

definition starting_board :: Board where
  "starting_board sq =
     (if 0 \<le> sq \<and> sq < 8 then Some (Piece (back_rank ! nat sq) WHITE)
      else if 8 \<le> sq \<and> sq < 16 then Some (Piece PAWN WHITE)
      else if 48 \<le> sq \<and> sq < 56 then Some (Piece PAWN BLACK)
      else if 56 \<le> sq \<and> sq < 64 then Some (Piece (back_rank ! nat (sq - 56)) BLACK)
      else None)"

definition D1 :: Square where "D1 = 3"
definition E1 :: Square where "E1 = 4"
definition A2 :: Square where "A2 = 8"

section \<open>Well-formed inputs\<close>

text \<open>
  A key array is well formed when it is 8 by 8 by 12. An indexing of the pieces is valid
  when it gives each of the twelve piece symbols an index from 0 to 11.
\<close>

definition all_pieces :: "Piece list" where
  "all_pieces =
     [Piece pt c. c \<leftarrow> [WHITE, BLACK], pt \<leftarrow> [PAWN, KNIGHT, BISHOP, ROOK, QUEEN, KING]]"

definition valid_piece_indexing :: "PieceIndexing \<Rightarrow> bool" where
  "valid_piece_indexing PIECE_INDEXING =
     list_all (\<lambda>p. case PIECE_INDEXING (symbol p) of None \<Rightarrow> False | Some i \<Rightarrow> 0 \<le> i \<and> i < 12)
       all_pieces"

definition well_formed_keys :: "HashTable \<Rightarrow> bool" where
  "well_formed_keys keys =
     (length keys = 8 \<and>
      list_all (\<lambda>plane. length plane = 8 \<and> list_all (\<lambda>row. length row = 12) plane) keys)"

text \<open>
  The key of a piece on a square, read with plain list access, and the keys of the
  occupied squares among a list of squares, in the order of the list.
\<close>

definition key_of :: "PieceIndexing \<Rightarrow> HashTable \<Rightarrow> Square \<Rightarrow> Piece \<Rightarrow> int" where
  "key_of PIECE_INDEXING keys square p =
     keys ! nat (square_rank square) ! nat (square_file square)
       ! nat (case PIECE_INDEXING (symbol p) of None \<Rightarrow> 0 | Some i \<Rightarrow> i)"

definition occupied_keys :: "PieceIndexing \<Rightarrow> Board \<Rightarrow> HashTable \<Rightarrow> Square list \<Rightarrow> int list" where
  "occupied_keys PIECE_INDEXING board keys squares =
     concat (map (\<lambda>sq. case board sq of None \<Rightarrow> []
                        | Some p \<Rightarrow> [key_of PIECE_INDEXING keys sq p]) squares)"

text \<open>The range of \<open>random.randint(1, 2 ** 64 - 1)\<close>.\<close>

definition key_in_range :: "int \<Rightarrow> bool" where
  "key_in_range k = (1 \<le> k \<and> k \<le> 2 ^ 64 - 1)"

text \<open>The strings that match \<open>[a-h][1-8]\<close> when case is ignored, written out.\<close>

definition valid_square_strings :: "string list" where
  "valid_square_strings = [[f, r]. f \<leftarrow> ''abcdefghABCDEFGH'', r \<leftarrow> ''12345678'']"

section \<open>Concrete inputs\<close>

definition example_indexing :: PieceIndexing where
  "example_indexing =
     map_of [(''P'', 0), (''N'', 1), (''B'', 2), (''R'', 3), (''Q'', 4), (''K'', 5),
             (''p'', 6), (''n'', 7), (''b'', 8), (''r'', 9), (''q'', 10), (''k'', 11)]"

definition example_keys :: HashTable where
  "example_keys =
     map (\<lambda>r. map (\<lambda>f. map (\<lambda>i. int (96 * r + 12 * f + i + 1)) [0..<12]) [0..<8]) [0..<8]"

definition other_keys :: HashTable where
  "other_keys = replicate 8 (replicate 8 [1, 2, 4, 8, 16, 32, 64, 128, 256, 512, 1024, 2048])"

definition empty_board :: Board where
  "empty_board = (\<lambda>sq. None)"

definition example_values :: "PieceType \<Rightarrow> int" where
  "example_values pt =
     (case pt of PAWN \<Rightarrow> 100 | KNIGHT \<Rightarrow> 300 | BISHOP \<Rightarrow> 350 | ROOK \<Rightarrow> 500
      | QUEEN \<Rightarrow> 1000 | KING \<Rightarrow> 99999)"


definition example_evaluation :: "Board \<Rightarrow> error + int" where
  "example_evaluation board = Inr (StandardEvaluation_evaluate example_values board)"

definition example_random :: Random where
  "example_random = ((\<lambda>n. 7 * n + 3), 0)"

definition small_board :: Board where
  "small_board = empty_board(D1 \<mapsto> Piece QUEEN WHITE, E1 \<mapsto> Piece KING WHITE,
                             60 \<mapsto> Piece KING BLACK)"

definition example_table :: "int TranspositionTable" where
  "example_table =
     \<lparr>hash_function = zobrist_hash_function example_indexing,
      hash_table = other_keys,
      evaluation_function = example_evaluation,
      stored_values = [2096 \<mapsto> 5]\<rparr>"

section \<open>Properties of the hash\<close>

lemma all_pieces_complete: "p \<in> set all_pieces"
  by (cases p; rename_tac pt c; case_tac pt; case_tac c; simp add: all_pieces_def)

lemma symbol_nonempty: "symbol p \<noteq> []"
  by (simp add: symbol_def)

lemma valid_piece_indexingD:
  "valid_piece_indexing PI \<Longrightarrow> \<exists>i. PI (symbol p) = Some i \<and> 0 \<le> i \<and> i < 12"
  using all_pieces_complete[of p]
  by (auto simp: valid_piece_indexing_def list_all_iff split: option.splits)

lemma square_rank_div: "square_rank sq = sq div 8"
  by (simp add: square_rank_def drop_bit_eq_div)

lemma square_rank_range: "0 \<le> sq \<Longrightarrow> sq < 64 \<Longrightarrow> 0 \<le> square_rank sq \<and> square_rank sq < 8"
  unfolding square_rank_div by presburger

lemma square_file_mod: "square_file sq = sq mod 8"
proof -
  have "sq AND mask 3 = sq mod 2 ^ 3"
    by (simp only: take_bit_eq_mask [symmetric] take_bit_eq_mod)
  then show ?thesis by (simp add: square_file_def mask_eq_exp_minus_1)
qed

lemma square_file_range: "0 \<le> square_file sq \<and> square_file sq < 8"
  by (simp add: square_file_mod)

lemma SQUARES_range: "sq \<in> set SQUARES \<Longrightarrow> 0 \<le> sq \<and> sq < 64"
  by (auto simp: SQUARES_def)

lemma py_index_ok: "0 \<le> i \<Longrightarrow> i < int (length xs) \<Longrightarrow> py_index xs i = Inr (xs ! nat i)"
  by (simp add: py_index_def)

lemma get_piece_at_Idx:
  "0 \<le> sq \<Longrightarrow> sq < 64 \<Longrightarrow>
   get_piece_at board (Idx sq) = Inr (case board sq of None \<Rightarrow> [] | Some p \<Rightarrow> symbol p)"
  by (simp add: get_piece_at_def split: option.splits)

lemma well_formed_keys_plane:
  "well_formed_keys ht \<Longrightarrow> i < 8 \<Longrightarrow> length (ht ! i) = 8"
  by (simp add: well_formed_keys_def list_all_length)

lemma well_formed_keys_row:
  "well_formed_keys ht \<Longrightarrow> i < 8 \<Longrightarrow> j < 8 \<Longrightarrow> length (ht ! i ! j) = 12"
  by (simp add: well_formed_keys_def list_all_length)

lemma key_lookup_ok:
  assumes wf: "well_formed_keys ht" and sq: "0 \<le> sq" "sq < 64"
    and pi: "PI (symbol p) = Some i" "0 \<le> i" "i < 12"
  shows "py_index ht (square_rank sq) = Inr (ht ! nat (square_rank sq))"
    and "py_index (ht ! nat (square_rank sq)) (square_file sq)
           = Inr (ht ! nat (square_rank sq) ! nat (square_file sq))"
    and "py_index (ht ! nat (square_rank sq) ! nat (square_file sq)) i = Inr (key_of PI ht sq p)"
proof -
  have r: "0 \<le> square_rank sq" "nat (square_rank sq) < 8"
    using square_rank_range[OF sq] by auto
  have f: "0 \<le> square_file sq" "nat (square_file sq) < 8"
    using square_file_range[of sq] by auto
  have l8: "length ht = 8" using wf by (simp add: well_formed_keys_def)
  show "py_index ht (square_rank sq) = Inr (ht ! nat (square_rank sq))"
    using r l8 by (intro py_index_ok) auto
  show "py_index (ht ! nat (square_rank sq)) (square_file sq)
           = Inr (ht ! nat (square_rank sq) ! nat (square_file sq))"
    using f well_formed_keys_plane[OF wf r(2)] by (intro py_index_ok) auto
  show "py_index (ht ! nat (square_rank sq) ! nat (square_file sq)) i = Inr (key_of PI ht sq p)"
    using pi well_formed_keys_row[OF wf r(2) f(2)] by (simp add: py_index_ok key_of_def)
qed

lemma zobrist_loop_ok:
  assumes wf: "well_formed_keys ht" and vi: "valid_piece_indexing PI"
  shows "\<forall>sq \<in> set sqs. 0 \<le> sq \<and> sq < 64 \<Longrightarrow>
         zobrist_loop PI board ht sqs h = Inr (fold (XOR) (occupied_keys PI board ht sqs) h)"
proof (induction sqs arbitrary: h)
  case Nil
  show ?case by (simp add: occupied_keys_def)
next
  case (Cons sq sqs)
  have sq: "0 \<le> sq" "sq < 64" using Cons.prems by auto
  have IH: "\<And>h. zobrist_loop PI board ht sqs h = Inr (fold (XOR) (occupied_keys PI board ht sqs) h)"
    using Cons by auto
  show ?case
  proof (cases "board sq")
    case None
    then show ?thesis
      by (simp add: get_piece_at_Idx[OF sq] IH occupied_keys_def)
  next
    case (Some p)
    obtain i where i: "PI (symbol p) = Some i" "0 \<le> i" "i < 12"
      using valid_piece_indexingD[OF vi, of p] by blast
    show ?thesis
      using Some i(1)
      by (simp add: get_piece_at_Idx[OF sq] symbol_nonempty py_getitem_def
            key_lookup_ok[where PI=PI and p=p, OF wf sq i] IH occupied_keys_def xor.commute)
  qed
qed

lemma zobrist_loop_cong:
  "\<forall>sq \<in> set sqs. board sq = board' sq \<Longrightarrow>
   zobrist_loop PI board ht sqs h = zobrist_loop PI board' ht sqs h"
proof (induction sqs arbitrary: h)
  case Nil
  show ?case by simp
next
  case (Cons sq sqs)
  have "get_piece_at board (Idx sq) = get_piece_at board' (Idx sq)"
    using Cons.prems by (simp add: get_piece_at_def)
  moreover have "\<And>h. zobrist_loop PI board ht sqs h = zobrist_loop PI board' ht sqs h"
    using Cons by simp
  ultimately show ?case by (simp split: sum.splits)
qed

lemma zobrist_loop_empty:
  "\<forall>sq \<in> set sqs. 0 \<le> sq \<and> sq < 64 \<and> board sq = None \<Longrightarrow>
   zobrist_loop PI board ht sqs h = Inr h"
proof (induction sqs arbitrary: h)
  case Nil
  show ?case by simp
next
  case (Cons sq sqs)
  have "get_piece_at board (Idx sq) = Inr []"
    using Cons.prems by (simp add: get_piece_at_def)
  then show ?case using Cons by simp
qed

lemma bit_fold_xor:
  "bit (fold (XOR) ks (h::int)) n \<longleftrightarrow> (bit h n \<noteq> odd (length (filter (\<lambda>k. bit k n) ks)))"
  by (induction ks arbitrary: h) (auto simp: bit_xor_iff)

lemma filter_occupied_keys:
  "length (filter P (occupied_keys PI board ht sqs)) =
   length (filter (\<lambda>sq. \<exists>p. board sq = Some p \<and> P (key_of PI ht sq p)) sqs)"
  by (induction sqs) (auto simp: occupied_keys_def split: option.splits)

lemma distinct_SQUARES: "distinct SQUARES"
  by (simp add: SQUARES_def distinct_map inj_on_def)

lemma set_SQUARES: "set SQUARES = {sq. 0 \<le> sq \<and> sq < 64}"
proof -
  have "\<And>x::int. 0 \<le> x \<Longrightarrow> x < 64 \<Longrightarrow> x \<in> int ` {0..<64}"
    by (rule_tac x = "nat x" in image_eqI) auto
  then show ?thesis by (auto simp: SQUARES_def)
qed

subsection \<open>Concrete evaluations\<close>

lemma SQUARES_literal:
  "SQUARES =
     [0, 1, 2, 3, 4, 5, 6, 7] @
     [8, 9, 10, 11, 12, 13, 14, 15] @
     [16, 17, 18, 19, 20, 21, 22, 23] @
     [24, 25, 26, 27, 28, 29, 30, 31] @
     [32, 33, 34, 35, 36, 37, 38, 39] @
     [40, 41, 42, 43, 44, 45, 46, 47] @
     [48, 49, 50, 51, 52, 53, 54, 55] @
     [56, 57, 58, 59, 60, 61, 62, 63]"
  by (simp add: SQUARES_def upt_conv_Cons)

lemma symbol_simps:
  "symbol (Piece PAWN WHITE) = ''P''" "symbol (Piece KNIGHT WHITE) = ''N''"
  "symbol (Piece BISHOP WHITE) = ''B''" "symbol (Piece ROOK WHITE) = ''R''"
  "symbol (Piece QUEEN WHITE) = ''Q''" "symbol (Piece KING WHITE) = ''K''"
  "symbol (Piece PAWN BLACK) = ''p''" "symbol (Piece KNIGHT BLACK) = ''n''"
  "symbol (Piece BISHOP BLACK) = ''b''" "symbol (Piece ROOK BLACK) = ''r''"
  "symbol (Piece QUEEN BLACK) = ''q''" "symbol (Piece KING BLACK) = ''k''"
  by code_simp+

lemma small_board_hash:
  "zobrist_hash_function example_indexing small_board other_keys = Inr 2096"
  by (simp add: zobrist_hash_function_def SQUARES_literal small_board_def empty_board_def
        D1_def E1_def get_piece_at_def symbol_simps py_getitem_def example_indexing_def
        other_keys_def py_index_def square_rank_div square_file_mod)

lemma small_board_evaluation: "example_evaluation small_board = Inr 1000"
  by (simp add: example_evaluation_def StandardEvaluation_evaluate_def SQUARES_literal
        small_board_def empty_board_def D1_def E1_def signed_value_def example_values_def)

lemma well_formed_other_keys: "well_formed_keys other_keys"
  by (simp add: well_formed_keys_def other_keys_def list_all_length)

subsection \<open>The claims on the hash\<close>

text \<open>
  Claim C1. For every board and every 8 by 8 by 12 key array (and a valid indexing of the
  pieces), \<open>zobrist_hash_function\<close> returns the XOR, from the accumulator 0, of the keys
  at [rank][file][piece index] of exactly the occupied squares among the 64 squares: bit
  \<open>n\<close> of the hash is set exactly when an odd number of occupied squares have a key
  with bit \<open>n\<close> set, so a square without a piece contributes nothing.
\<close>

theorem zobrist_hash_is_xor_of_occupied_squares:
  assumes "well_formed_keys keys" and "valid_piece_indexing PIECE_INDEXING"
  shows "\<exists>h. zobrist_hash_function PIECE_INDEXING board keys = Inr h
           \<and> h = fold (XOR) (occupied_keys PIECE_INDEXING board keys SQUARES) 0
           \<and> (\<forall>n. bit h n \<longleftrightarrow>
                  odd (card {sq. 0 \<le> sq \<and> sq < 64 \<and>
                     (\<exists>p. board sq = Some p \<and> bit (key_of PIECE_INDEXING keys sq p) n)}))"
proof -
  let ?h = "fold (XOR) (occupied_keys PIECE_INDEXING board keys SQUARES) 0"
  have eq: "zobrist_hash_function PIECE_INDEXING board keys = Inr ?h"
    unfolding zobrist_hash_function_def
    using SQUARES_range by (intro zobrist_loop_ok[OF assms]) blast
  have "bit ?h n \<longleftrightarrow>
          odd (card {sq. 0 \<le> sq \<and> sq < 64 \<and>
             (\<exists>p. board sq = Some p \<and> bit (key_of PIECE_INDEXING keys sq p) n)})" for n
  proof -
    let ?Q = "\<lambda>sq. \<exists>p. board sq = Some p \<and> bit (key_of PIECE_INDEXING keys sq p) n"
    have "length (filter ?Q SQUARES) = card (set (filter ?Q SQUARES))"
      by (rule distinct_card [symmetric]) (simp add: distinct_SQUARES)
    also have "set (filter ?Q SQUARES) = {sq. 0 \<le> sq \<and> sq < 64 \<and> ?Q sq}"
      by (auto simp: set_SQUARES)
    finally show ?thesis
      by (simp add: bit_fold_xor filter_occupied_keys)
  qed
  with eq show ?thesis by blast
qed

lemma well_formed_example_keys: "well_formed_keys example_keys"
  by (simp add: well_formed_keys_def example_keys_def list_all_iff)

lemma valid_example_indexing: "valid_piece_indexing example_indexing"
  by code_simp

theorem zobrist_hash_is_xor_of_occupied_squares_witness:
  "well_formed_keys other_keys \<and> valid_piece_indexing example_indexing \<and>
   zobrist_hash_function example_indexing small_board other_keys = Inr 2096 \<and>
   fold (XOR) (occupied_keys example_indexing small_board other_keys SQUARES) 0 = 2096"
proof -
  from zobrist_hash_is_xor_of_occupied_squares
         [OF well_formed_other_keys valid_example_indexing, of small_board]
  obtain h where
    "zobrist_hash_function example_indexing small_board other_keys = Inr h"
    "h = fold (XOR) (occupied_keys example_indexing small_board other_keys SQUARES) 0"
    by blast
  then show ?thesis
    using well_formed_other_keys valid_example_indexing by (simp add: small_board_hash)
qed

text \<open>
  Claim C3. The hash is a function of the pieces on the 64 squares and of the key array
  alone: two boards with the same piece placement have, with the same key array, the same
  result, be it a hash or an exception. The model reads nothing else, and writes only its
  own accumulator.
\<close>

theorem zobrist_hash_deterministic:
  assumes "\<forall>sq \<in> set SQUARES. board sq = board' sq"
  shows "zobrist_hash_function PIECE_INDEXING board keys =
         zobrist_hash_function PIECE_INDEXING board' keys"
  unfolding zobrist_hash_function_def using assms by (rule zobrist_loop_cong)

theorem zobrist_hash_deterministic_witness:
  "list_all (\<lambda>sq. starting_board sq = (starting_board(64 \<mapsto> Piece KING WHITE)) sq) SQUARES \<and>
   zobrist_hash_function example_indexing starting_board example_keys =
   zobrist_hash_function example_indexing (starting_board(64 \<mapsto> Piece KING WHITE)) example_keys"
proof -
  have h: "\<forall>sq \<in> set SQUARES. starting_board sq = (starting_board(64 \<mapsto> Piece KING WHITE)) sq"
    using SQUARES_range by auto
  from zobrist_hash_deterministic [OF h, of example_indexing example_keys] h show ?thesis
    unfolding list_all_iff by blast
qed

text \<open>
  Claim C10. The hash of a board with no occupied square is 0, for every key array, well
  formed or not, and every indexing of the pieces: no key is ever read.
\<close>

theorem zobrist_hash_empty_board:
  assumes "\<forall>sq \<in> set SQUARES. board sq = None"
  shows "zobrist_hash_function PIECE_INDEXING board keys = Inr 0"
  unfolding zobrist_hash_function_def
  using assms SQUARES_range by (intro zobrist_loop_empty) blast

theorem zobrist_hash_empty_board_witness:
  "list_all (\<lambda>sq. empty_board sq = None) SQUARES \<and>
   zobrist_hash_function example_indexing empty_board [] = Inr 0"
proof -
  have h: "\<forall>sq \<in> set SQUARES. empty_board sq = None"
    by (simp add: empty_board_def)
  from zobrist_hash_empty_board [OF h, of example_indexing "[]"] h show ?thesis
    by (simp add: list_all_iff)
qed


section \<open>Properties of the transposition table\<close>

lemma example_table_hash:
  "hash_function example_table small_board (hash_table example_table) = Inr 2096"
  by (simp add: example_table_def small_board_hash)

lemma example_table_evaluation: "evaluation_function example_table small_board = Inr 1000"
  by (simp add: example_table_def small_board_evaluation)

lemma hash_current_board_ok:
  assumes "hash_function self board (hash_table self) = Inr h"
    and "evaluation_function self board = Inr v"
  shows "hash_current_board self board = Inr (self\<lparr>stored_values := (stored_values self)(h \<mapsto> v)\<rparr>)"
  using assms by (simp add: hash_current_board_def)

text \<open>
  Claim C2. Round trip: when the hash function and the evaluator of a table return on a
  board, \<open>hash_current_board\<close> returns, and in the table it leaves, the entry under the
  hash of that board is exactly the score the evaluator gives for that board.
\<close>

theorem record_then_lookup_roundtrip:
  assumes "hash_function self board (hash_table self) = Inr h"
    and "evaluation_function self board = Inr v"
  shows "\<exists>self'. hash_current_board self board = Inr self'
           \<and> hash_function self' board (hash_table self') = Inr h
           \<and> evaluation_function self' board = Inr v
           \<and> stored_values self' h = Some v
           \<and> contains self' h"
  using assms by (simp add: hash_current_board_ok contains_def)

theorem record_then_lookup_roundtrip_witness:
  "\<exists>self'. hash_current_board example_table small_board = Inr self'
           \<and> hash_function self' small_board (hash_table self') = Inr 2096
           \<and> evaluation_function self' small_board = Inr 1000
           \<and> stored_values self' 2096 = Some 1000
           \<and> contains self' 2096"
  using record_then_lookup_roundtrip [OF example_table_hash example_table_evaluation] .

text \<open>
  Claim C5. When the hash function and the evaluator of a table return on a board,
  \<open>hash_current_board\<close> returns; it has computed the hash with the table's hash function
  on the table's key array and the score with the table's evaluator, and the table it
  leaves holds the score under the hash, whatever was stored there before; every other
  entry and every other attribute is as before. A later call on a board with the same
  hash overwrites the entry again: the last write wins.
\<close>

theorem hash_current_board_stores_last_write:
  assumes "hash_function self board (hash_table self) = Inr h"
    and "evaluation_function self board = Inr v"
  shows "\<exists>self'. hash_current_board self board = Inr self' \<and>
           stored_values self' h = Some v \<and>
           (\<forall>k. k \<noteq> h \<longrightarrow> stored_values self' k = stored_values self k) \<and>
           hash_function self' = hash_function self \<and>
           hash_table self' = hash_table self \<and>
           evaluation_function self' = evaluation_function self \<and>
           (\<forall>board' v'. hash_function self board' (hash_table self) = Inr h \<and>
                       evaluation_function self board' = Inr v' \<longrightarrow>
              (\<exists>self''. hash_current_board self' board' = Inr self'' \<and>
                         stored_values self'' h = Some v'))"
proof -
  let ?self' = "self\<lparr>stored_values := (stored_values self)(h \<mapsto> v)\<rparr>"
  have 1: "hash_current_board self board = Inr ?self'"
    using assms by (rule hash_current_board_ok)
  have 2: "\<exists>self''. hash_current_board ?self' board' = Inr self'' \<and>
                       stored_values self'' h = Some v'"
    if "hash_function self board' (hash_table self) = Inr h"
      and "evaluation_function self board' = Inr v'" for board' v'
    using that by (simp add: hash_current_board_def)
  show ?thesis
    using 1 2 by (intro exI [of _ ?self']) simp
qed

theorem hash_current_board_stores_last_write_witness:
  "stored_values example_table 2096 = Some 5 \<and>
   (\<exists>self'. hash_current_board example_table small_board = Inr self' \<and>
             stored_values self' 2096 = Some 1000 \<and>
             hash_table self' = hash_table example_table)"
proof -
  have "stored_values example_table 2096 = Some 5"
    by (simp add: example_table_def)
  moreover from hash_current_board_stores_last_write
                  [OF example_table_hash example_table_evaluation]
  have "\<exists>self'. hash_current_board example_table small_board = Inr self' \<and>
             stored_values self' 2096 = Some 1000 \<and>
             hash_table self' = hash_table example_table"
    by blast
  ultimately show ?thesis by (rule conjI)
qed

text \<open>When the hash function or the evaluator raises, so does the call.\<close>

lemma hash_current_board_raises:
  "(hash_function self board (hash_table self) = Inl e \<longrightarrow>
      hash_current_board self board = Inl e) \<and>
   (hash_function self board (hash_table self) = Inr h \<and> evaluation_function self board = Inl e \<longrightarrow>
      hash_current_board self board = Inl e)"
  by (simp add: hash_current_board_def)

text \<open>
  Claim C6. The setter of \<open>hash_table\<close> replaces the key array and nothing else: the
  stored scores, the hash function and the evaluator are as before, the getter returns the
  new array, and a later \<open>hash_current_board\<close> hashes with the new array.
\<close>

theorem hash_table_setter_frame:
  "stored_values (hash_table_setter self new_hash_table) = stored_values self \<and>
   hash_function (hash_table_setter self new_hash_table) = hash_function self \<and>
   evaluation_function (hash_table_setter self new_hash_table) = evaluation_function self \<and>
   hash_table (hash_table_setter self new_hash_table) = new_hash_table \<and>
   hash_current_board (hash_table_setter self new_hash_table) board =
     (case hash_function self board new_hash_table of
        Inl e \<Rightarrow> Inl e
      | Inr h \<Rightarrow>
          (case evaluation_function self board of
             Inl e \<Rightarrow> Inl e
           | Inr v \<Rightarrow>
               Inr ((hash_table_setter self new_hash_table)
                      \<lparr>stored_values := (stored_values self)(h \<mapsto> v)\<rparr>)))"
  by (simp add: hash_table_setter_def hash_current_board_def split: sum.splits)

text \<open>
  Claim C7. With a well-formed 8 by 8 by 12 key array and a valid indexing of the pieces,
  \<open>zobrist_hash_function\<close> returns a hash on every board, and so does
  \<open>hash_current_board\<close> of a table with that hash function and key array, whenever its
  evaluator returns on the board: no index is out of bounds.
\<close>

theorem hash_and_record_raise_nothing:
  assumes "well_formed_keys keys" and "valid_piece_indexing PIECE_INDEXING"
  shows "(\<exists>h. zobrist_hash_function PIECE_INDEXING board keys = Inr h) \<and>
         (\<forall>self v. hash_function self = zobrist_hash_function PIECE_INDEXING \<and>
                   hash_table self = keys \<and> evaluation_function self board = Inr v \<longrightarrow>
                   (\<exists>self'. hash_current_board self board = Inr self'))"
proof -
  have "zobrist_hash_function PIECE_INDEXING board keys =
          Inr (fold (XOR) (occupied_keys PIECE_INDEXING board keys SQUARES) 0)"
    unfolding zobrist_hash_function_def
    using SQUARES_range by (intro zobrist_loop_ok[OF assms]) blast
  then show ?thesis by (auto simp: hash_current_board_def)
qed

theorem hash_and_record_raise_nothing_witness:
  "well_formed_keys other_keys \<and> valid_piece_indexing example_indexing \<and>
   (\<exists>h. zobrist_hash_function example_indexing small_board other_keys = Inr h) \<and>
   (\<exists>self'. hash_current_board example_table small_board = Inr self')"
proof -
  have pre: "hash_function example_table = zobrist_hash_function example_indexing \<and>
        hash_table example_table = other_keys \<and>
        evaluation_function example_table small_board = Inr 1000"
    by (simp add: example_table_evaluation) (simp add: example_table_def)
  note ok = hash_and_record_raise_nothing
              [OF well_formed_other_keys valid_example_indexing, of small_board]
  have a: "\<exists>h. zobrist_hash_function example_indexing small_board other_keys = Inr h"
    using ok by (rule conjunct1)
  have b: "\<exists>self'. hash_current_board example_table small_board = Inr self'"
    using ok [THEN conjunct2, rule_format, OF pre] .
  show ?thesis
    using well_formed_other_keys valid_example_indexing a b by (intro conjI)
qed


section \<open>The constructor\<close>

lemma randint_range:
  assumes "a \<le> b"
  shows "a \<le> fst (randint a b g) \<and> fst (randint a b g) \<le> b"
proof -
  let ?m = "nat (b - a + 1)"
  have "0 < ?m" using assms by simp
  then have "fst g (snd g) mod ?m < ?m" by simp
  then have "int (fst g (snd g) mod ?m) < b - a + 1" using assms by linarith
  then show ?thesis by (simp add: randint_def)
qed

lemma comprehension_Suc_fst:
  "fst (comprehension (Suc n) e g) = fst (e g) # fst (comprehension n e (snd (e g)))"
  by (simp split: prod.splits)

lemma comprehension_length: "length (fst (comprehension n e g)) = n"
  by (induction n arbitrary: g) (simp_all only: comprehension_Suc_fst, simp_all)

lemma comprehension_all:
  assumes "\<And>g. P (fst (e g))"
  shows "list_all P (fst (comprehension n e g))"
  by (induction n arbitrary: g) (simp_all only: comprehension_Suc_fst, simp_all add: assms)

lemma init_keys:
  fixes g :: Random
  defines "keys \<equiv> fst (comprehension 8 (comprehension 8 (comprehension 12 (randint 1 (2 ^ 64 - 1)))) g)"
  shows "well_formed_keys keys"
    and "list_all (list_all (list_all key_in_range)) keys"
proof -
  have r: "\<And>g. key_in_range (fst (randint 1 (2 ^ 64 - 1) g))"
    unfolding key_in_range_def by (rule randint_range) simp
  show "well_formed_keys keys"
    unfolding well_formed_keys_def keys_def
    by (intro conjI comprehension_length comprehension_all)
  show "list_all (list_all (list_all key_in_range)) keys"
    unfolding keys_def by (intro comprehension_all r)
qed

lemma comprehension_Suc_snd:
  "snd (comprehension (Suc n) e g) = snd (comprehension n e (snd (e g)))"
  by (simp split: prod.splits)

lemma comprehension_snd:
  assumes "\<And>g. snd (e g) = (fst g, snd g + k)"
  shows "snd (comprehension n e g) = (fst g, snd g + n * k)"
  by (induction n arbitrary: g) (simp_all only: comprehension_Suc_snd, simp_all add: assms)

lemma comprehension_nth:
  assumes "\<And>g. snd (e g) = (fst g, snd g + k)"
  shows "i < n \<Longrightarrow> fst (comprehension n e g) ! i = fst (e (fst g, snd g + i * k))"
proof (induction n arbitrary: g i)
  case 0
  then show ?case by simp
next
  case (Suc n)
  show ?case
  proof (cases i)
    case 0
    then show ?thesis by (simp only: comprehension_Suc_fst) simp
  next
    case (Suc i')
    then have "i' < n" using Suc.prems by simp
    from Suc.IH [OF this, of "snd (e g)"] show ?thesis
      unfolding comprehension_Suc_fst Suc by (simp add: assms add.assoc)
  qed
qed

lemma randint_snd: "snd (randint a b g) = (fst g, snd g + 1)"
  by (simp add: randint_def)

lemma init_keys_nth:
  fixes g :: Random
  defines "row \<equiv> comprehension 12 (randint 1 (2 ^ 64 - 1))"
  defines "plane \<equiv> comprehension 8 row"
  assumes "k < 8" "j < 8" "i < 12"
  shows "fst (comprehension 8 plane g) ! k ! j ! i =
           fst (randint 1 (2 ^ 64 - 1) (fst g, snd g + 96 * k + 12 * j + i))"
    and "snd (comprehension 8 plane g) = (fst g, snd g + 768)"
proof -
  have row: "\<And>g. snd (row g) = (fst g, snd g + 12)"
    unfolding row_def using comprehension_snd [OF randint_snd, of 12] by simp
  have plane: "\<And>g. snd (plane g) = (fst g, snd g + 96)"
    unfolding plane_def using comprehension_snd [OF row, of 8] by simp
  show "snd (comprehension 8 plane g) = (fst g, snd g + 768)"
    using comprehension_snd [OF plane, of 8 g] by simp
  have "fst (comprehension 8 plane g) ! k = fst (plane (fst g, snd g + k * 96))"
    using assms(3) by (rule comprehension_nth [OF plane])
  also have "\<dots> ! j = fst (row (fst g, snd g + k * 96 + j * 12))"
    unfolding plane_def using comprehension_nth [OF row assms(4), of "(fst g, snd g + k * 96)"]
    by simp
  also have "\<dots> ! i = fst (randint 1 (2 ^ 64 - 1) (fst g, snd g + k * 96 + j * 12 + i))"
    unfolding row_def
    using comprehension_nth [OF randint_snd assms(5), of _ _ "(fst g, snd g + k * 96 + j * 12)"]
    by simp
  finally show "fst (comprehension 8 plane g) ! k ! j ! i =
           fst (randint 1 (2 ^ 64 - 1) (fst g, snd g + 96 * k + 12 * j + i))"
    by (simp add: mult.commute)
qed

text \<open>
  Claim C4, as the code has it. The constructor takes the hash function only: a call that
  passes an evaluation function as well raises TypeError. A call with the hash function
  alone returns a table with that hash function, with \<open>StandardEvaluation\<close> as
  evaluator, with no stored score, and with a key array of shape 8 by 8 by 12 in which the
  key at [k][j][i] is the draw number 96 k + 12 j + i of \<open>random.randint(1, 2 ** 64 - 1)\<close>,
  hence an integer from 1 to 2^64 - 1; the generator has advanced by 768 draws.
\<close>

theorem TranspositionTable_init_allocates:
  "TranspositionTable_init StandardEvaluation hf (Some ev) g = Inl TypeError \<and>
   (\<exists>self. TranspositionTable_init StandardEvaluation hf None g
              = Inr (self, (fst g, snd g + 768)) \<and>
      hash_function self = hf \<and> evaluation_function self = StandardEvaluation \<and>
      stored_values self = Map.empty \<and> well_formed_keys (hash_table self) \<and>
      list_all (list_all (list_all key_in_range)) (hash_table self) \<and>
      (\<forall>k<8. \<forall>j<8. \<forall>i<12.
         hash_table self ! k ! j ! i =
           fst (randint 1 (2 ^ 64 - 1) (fst g, snd g + 96 * k + 12 * j + i))))"
proof -
  let ?c = "comprehension 8 (comprehension 8 (comprehension 12 (randint 1 (2 ^ 64 - 1)))) g"
  let ?self = "\<lparr>hash_function = hf, hash_table = fst ?c,
                 evaluation_function = StandardEvaluation, stored_values = Map.empty\<rparr>"
  have c: "?c = (fst ?c, (fst g, snd g + 768))"
    using init_keys_nth(2) [of 0 0 0 g] by (simp add: prod_eq_iff)
  have "TranspositionTable_init StandardEvaluation hf None g = Inr (?self, (fst g, snd g + 768))"
    unfolding TranspositionTable_init_def by (subst c) simp
  moreover have "well_formed_keys (hash_table ?self)"
    using init_keys(1) [of g] by simp
  moreover have "list_all (list_all (list_all key_in_range)) (hash_table ?self)"
    using init_keys(2) [of g] by simp
  moreover have "\<forall>k<8. \<forall>j<8. \<forall>i<12.
         hash_table ?self ! k ! j ! i =
           fst (randint 1 (2 ^ 64 - 1) (fst g, snd g + 96 * k + 12 * j + i))"
    using init_keys_nth(1) [of _ _ _ g] by simp
  moreover have "TranspositionTable_init StandardEvaluation hf (Some ev) g = Inl TypeError"
    by (simp add: TranspositionTable_init_def)
  ultimately show ?thesis by (intro conjI exI [of _ ?self]) simp_all
qed

theorem TranspositionTable_init_allocates_witness:
  "\<exists>self. TranspositionTable_init example_evaluation (zobrist_hash_function example_indexing)
             None example_random = Inr (self, (fst example_random, 768)) \<and>
      evaluation_function self = example_evaluation \<and>
      stored_values self = Map.empty \<and>
      well_formed_keys (hash_table self) \<and>
      hash_table self ! 0 ! 0 ! 1 = 11 \<and>
      hash_table self ! 7 ! 7 ! 11 = 5373"
proof -
  from TranspositionTable_init_allocates
         [of example_evaluation "zobrist_hash_function example_indexing" example_evaluation
             example_random]
  obtain self where self:
    "TranspositionTable_init example_evaluation (zobrist_hash_function example_indexing)
       None example_random = Inr (self, (fst example_random, snd example_random + 768))"
    "evaluation_function self = example_evaluation"
    "stored_values self = Map.empty"
    "well_formed_keys (hash_table self)"
    "\<forall>k<8. \<forall>j<8. \<forall>i<12.
       hash_table self ! k ! j ! i =
         fst (randint 1 (2 ^ 64 - 1)
                (fst example_random, snd example_random + 96 * k + 12 * j + i))"
    by blast
  have "hash_table self ! 0 ! 0 ! 1 =
          fst (randint 1 (2 ^ 64 - 1) (fst example_random, snd example_random + 96 * 0 + 12 * 0 + 1))"
    using self(5) by simp
  then have a: "hash_table self ! 0 ! 0 ! 1 = 11"
    by (simp add: randint_def example_random_def)
  have "hash_table self ! 7 ! 7 ! 11 =
          fst (randint 1 (2 ^ 64 - 1) (fst example_random, snd example_random + 96 * 7 + 12 * 7 + 11))"
    using self(5) by simp
  then have b: "hash_table self ! 7 ! 7 ! 11 = 5373"
    by (simp add: randint_def example_random_def)
  have "snd example_random + 768 = 768" by (simp add: example_random_def)
  with self(1) have
    "TranspositionTable_init example_evaluation (zobrist_hash_function example_indexing)
       None example_random = Inr (self, (fst example_random, 768))" by simp
  with self(2,3,4) a b show ?thesis by blast
qed

text \<open>
  The claim C4 as stated gives the constructor an evaluation-function parameter: a call
  that passes an evaluation function raises TypeError.
\<close>

theorem TranspositionTable_init_evaluator_argument_counterexample:
  "TranspositionTable_init example_evaluation (zobrist_hash_function example_indexing)
     (Some example_evaluation) example_random = Inl TypeError"
  by (simp add: TranspositionTable_init_def)


section \<open>Square resolution\<close>

lemma of_char_less_256: "(of_char c :: nat) < 256"
proof -
  have "(of_char c :: nat) mod 256 < 256" by simp
  then show ?thesis by (simp only: of_char_mod_256)
qed

lemma of_char_lower:
  "(of_char (lower c) :: nat) =
     (if 65 \<le> (of_char c :: nat) \<and> (of_char c :: nat) \<le> 90 then of_char c + 32 else of_char c)"
  by (simp add: lower_def Let_def)

lemma of_char_upper:
  "(of_char (upper c) :: nat) =
     (if 97 \<le> (of_char c :: nat) \<and> (of_char c :: nat) \<le> 122 then of_char c - 32 else of_char c)"
proof -
  have "((of_char c :: nat) - 32) mod 256 = of_char c - 32"
    using of_char_less_256 [of c] by (intro mod_less) arith
  then show ?thesis by (simp add: upper_def Let_def)
qed

lemma mem_string_iff: "c \<in> set cs \<longleftrightarrow> (of_char c :: nat) \<in> set (map of_char cs)"
  by (auto simp: image_iff)

lemma file_of_char_Some_iff:
  "file_of_char c \<noteq> None \<longleftrightarrow> c \<in> set ''abcdefghABCDEFGH''"
proof -
  have "file_of_char c \<noteq> None \<longleftrightarrow>
          (65 \<le> (of_char c :: nat) \<and> (of_char c :: nat) \<le> 72) \<or>
          (97 \<le> (of_char c :: nat) \<and> (of_char c :: nat) \<le> 104)"
    unfolding file_of_char_def Let_def of_char_lower by (simp split: if_splits; arith)
  also have "\<dots> \<longleftrightarrow> (of_char c :: nat) \<in> set (map of_char ''abcdefghABCDEFGH'')"
    by (simp, arith)
  finally show ?thesis by (simp only: mem_string_iff [symmetric])
qed

lemma rank_of_char_Some_iff:
  "rank_of_char c \<noteq> None \<longleftrightarrow> c \<in> set ''12345678''"
proof -
  have "rank_of_char c \<noteq> None \<longleftrightarrow> 49 \<le> (of_char c :: nat) \<and> (of_char c :: nat) \<le> 56"
    by (simp add: rank_of_char_def Let_def)
  also have "\<dots> \<longleftrightarrow> (of_char c :: nat) \<in> set (map of_char ''12345678'')"
    by (simp, arith)
  finally show ?thesis by (simp only: mem_string_iff [symmetric])
qed

lemma two_letter_strings_iff:
  "s \<in> set [[f, r]. f \<leftarrow> fs, r \<leftarrow> rs] \<longleftrightarrow> (\<exists>f r. s = [f, r] \<and> f \<in> set fs \<and> r \<in> set rs)"
  by auto

lemma valid_square_strings_iff:
  "s \<in> set valid_square_strings \<longleftrightarrow>
     (\<exists>f r. s = [f, r] \<and> f \<in> set ''abcdefghABCDEFGH'' \<and> r \<in> set ''12345678'')"
  unfolding valid_square_strings_def by (rule two_letter_strings_iff)

lemma of_char_lower_upper: "(of_char (lower (upper c)) :: nat) = of_char (lower c)"
  unfolding of_char_lower of_char_upper by (simp split: if_splits; arith)

lemma of_char_lower_lower: "(of_char (lower (lower c)) :: nat) = of_char (lower c)"
  unfolding of_char_lower by (simp split: if_splits)

lemma file_of_char_upper: "file_of_char (upper c) = file_of_char c"
  by (simp add: file_of_char_def of_char_lower_upper)

lemma file_of_char_lower: "file_of_char (lower c) = file_of_char c"
  by (simp add: file_of_char_def of_char_lower_lower)

lemma rank_of_char_upper: "rank_of_char (upper c) = rank_of_char c"
  unfolding rank_of_char_def Let_def of_char_upper by (simp split: if_splits; arith)

lemma rank_of_char_lower: "rank_of_char (lower c) = rank_of_char c"
  unfolding rank_of_char_def Let_def of_char_lower by (simp split: if_splits; arith)

lemma file_of_char_range: "file_of_char c = Some fi \<Longrightarrow> 0 \<le> fi \<and> fi < 8"
  by (auto simp: file_of_char_def Let_def split: if_splits)

lemma rank_of_char_range: "rank_of_char c = Some ri \<Longrightarrow> 0 \<le> ri \<and> ri < 8"
  by (auto simp: rank_of_char_def Let_def split: if_splits)

lemma string_shapes:
  "s = [] \<or> (\<exists>a. s = [a]) \<or> (\<exists>f r. s = [f, r]) \<or> (\<exists>f r x xs. s = f # r # x # xs)"
  by (cases s; cases "tl s"; cases "tl (tl s)") auto

lemma get_square_at_position_two:
  "get_square_at_position (Str [f, r]) = Inl InvalidSquareError \<longleftrightarrow>
     \<not> (f \<in> set ''abcdefghABCDEFGH'' \<and> r \<in> set ''12345678'')"
  unfolding file_of_char_Some_iff [symmetric] rank_of_char_Some_iff [symmetric]
  by (auto split: option.splits)

lemma get_square_at_position_Str_error_iff:
  "get_square_at_position (Str s) = Inl InvalidSquareError \<longleftrightarrow> s \<notin> set valid_square_strings"
  using string_shapes [of s]
proof (elim disjE exE)
  fix f r assume "s = [f, r]"
  then show ?thesis
    unfolding valid_square_strings_iff using get_square_at_position_two [of f r] by blast
qed (simp_all add: valid_square_strings_iff)

lemma get_square_at_position_error:
  "get_square_at_position p = Inl e \<Longrightarrow> e = InvalidSquareError"
proof (cases p)
  case (Str s)
  assume "get_square_at_position p = Inl e"
  then show "e = InvalidSquareError"
    using string_shapes [of s] Str by (elim disjE exE) (auto split: option.splits)
next
  case (Idx i)
  assume "get_square_at_position p = Inl e"
  then show "e = InvalidSquareError"
    using Idx by (auto split: if_splits)
qed

lemma get_square_at_position_range:
  "get_square_at_position p = Inr sq \<Longrightarrow> 0 \<le> sq \<and> sq < 64"
proof (cases p)
  case (Str s)
  assume "get_square_at_position p = Inr sq"
  then show "0 \<le> sq \<and> sq < 64"
    using string_shapes [of s] Str
    by (elim disjE exE) (auto split: option.splits dest!: file_of_char_range rank_of_char_range)
next
  case (Idx i)
  assume "get_square_at_position p = Inr sq"
  then show "0 \<le> sq \<and> sq < 64"
    using Idx by (auto split: if_splits)
qed

lemma get_square_at_position_upper:
  "get_square_at_position (Str (map upper s)) = get_square_at_position (Str s)"
  using string_shapes [of s]
  by (elim disjE exE) (simp_all add: file_of_char_upper rank_of_char_upper cong: option.case_cong)

lemma get_square_at_position_lower:
  "get_square_at_position (Str (map lower s)) = get_square_at_position (Str s)"
  using string_shapes [of s]
  by (elim disjE exE) (simp_all add: file_of_char_lower rank_of_char_lower cong: option.case_cong)

lemma a2_resolves:
  "get_square_at_position (Str ''a2'') = Inr A2"
  "get_square_at_position (Str ''A2'') = Inr A2"
  "get_square_at_position (Idx A2) = Inr A2"
  by (simp_all add: A2_def file_of_char_def rank_of_char_def lower_def)

text \<open>
  Claim C8. Square resolution maps "a2", "A2" and the index of a2 to the same index; the
  case of the letters of a string does not matter; a string is refused with
  InvalidSquareError exactly when it is not one of the strings matching [a-h][1-8] in
  either case, an index exactly when it is outside 0..63; and every input either resolves
  to an index of 0..63 or is refused with InvalidSquareError.
\<close>

theorem get_square_at_position_contract:
  "get_square_at_position (Str ''a2'') = Inr A2 \<and>
   get_square_at_position (Str ''A2'') = Inr A2 \<and>
   get_square_at_position (Idx A2) = Inr A2 \<and>
   (\<forall>s. get_square_at_position (Str (map upper s)) = get_square_at_position (Str s)) \<and>
   (\<forall>s. get_square_at_position (Str (map lower s)) = get_square_at_position (Str s)) \<and>
   (\<forall>s. get_square_at_position (Str s) = Inl InvalidSquareError \<longleftrightarrow>
        s \<notin> set valid_square_strings) \<and>
   (\<forall>i. get_square_at_position (Idx i) = Inl InvalidSquareError \<longleftrightarrow> (i < 0 \<or> 64 \<le> i)) \<and>
   (\<forall>p. (\<exists>sq. get_square_at_position p = Inr sq \<and> 0 \<le> sq \<and> sq < 64) \<or>
        get_square_at_position p = Inl InvalidSquareError)"
proof -
  have total: "(\<exists>sq. get_square_at_position p = Inr sq \<and> 0 \<le> sq \<and> sq < 64) \<or>
        get_square_at_position p = Inl InvalidSquareError" for p
    using get_square_at_position_error [of p] get_square_at_position_range [of p]
    by (cases "get_square_at_position p") auto
  have idx: "get_square_at_position (Idx i) = Inl InvalidSquareError \<longleftrightarrow> (i < 0 \<or> 64 \<le> i)" for i
    by auto
  show ?thesis
    by (intro conjI allI a2_resolves get_square_at_position_upper get_square_at_position_lower
          get_square_at_position_Str_error_iff total idx)
qed

theorem get_square_at_position_contract_witness:
  "get_square_at_position (Str (map upper ''h8'')) = get_square_at_position (Str ''h8'') \<and>
   get_square_at_position (Str ''h8'') = Inr 63 \<and>
   ''i1'' \<notin> set valid_square_strings \<and>
   get_square_at_position (Str ''i1'') = Inl InvalidSquareError \<and>
   ''a22'' \<notin> set valid_square_strings \<and>
   get_square_at_position (Str ''a22'') = Inl InvalidSquareError \<and>
   get_square_at_position (Idx 64) = Inl InvalidSquareError \<and>
   get_square_at_position (Idx (- 1)) = Inl InvalidSquareError"
proof -
  note c = get_square_at_position_contract
  note up = c [THEN conjunct2, THEN conjunct2, THEN conjunct2, THEN conjunct1, rule_format]
  note str = c [THEN conjunct2, THEN conjunct2, THEN conjunct2, THEN conjunct2, THEN conjunct2,
                THEN conjunct1, rule_format]
  note idx = c [THEN conjunct2, THEN conjunct2, THEN conjunct2, THEN conjunct2, THEN conjunct2,
                THEN conjunct2, THEN conjunct1, rule_format]
  have v: "''i1'' \<notin> set valid_square_strings" "''a22'' \<notin> set valid_square_strings"
    by (simp_all add: valid_square_strings_iff)
  have h8: "get_square_at_position (Str ''h8'') = Inr 63"
    by (simp add: file_of_char_def rank_of_char_def lower_def)
  have i: "get_square_at_position (Idx 64) = Inl InvalidSquareError"
     "get_square_at_position (Idx (- 1)) = Inl InvalidSquareError"
    by (simp_all only: idx) simp_all
  show ?thesis
    using up [of "''h8''"] h8 v str [THEN iffD2, OF v(1)] str [THEN iffD2, OF v(2)] i
    by (intro conjI)
qed

section \<open>Material evaluation\<close>





end
